theory Spec2Isabelle
  imports Main "HOL-Library.Multiset" "HOL-Library.List_Lexorder"
begin

section \<open>Values, parsed atoms and errors\<close>

text \<open>
  Python strings are modelled as \<open>string\<close>; a character stands for the code point of the
  same number (0 to 255). The terms an atom carries are integers, strings and tuples
  (a nested atom is the tuple of its predicate and its arguments).
\<close>

datatype val = VInt int | VStr string | VTuple "val list"

text \<open>
  The second component of a parsed atom \<open>(pred, args)\<close>: a tuple of terms, or, when the
  atoms are left as strings by the fast splitter, the text between the parentheses.
\<close>

datatype pargs = ArgStr string | ArgTuple "val list"

type_synonym atom = "string \<times> pargs"

datatype error = ValueError | TypeError | AssertionError | SyntaxError | StopIteration

section \<open>The \<open>Answers\<close> object and its options\<close>

text \<open>
  \<open>answers_it\<close> is the state of the iterator \<open>iter(answers)\<close> stored by the constructor:
  the raw answer sets it has not produced yet.
\<close>

record answers =
  answers_it :: "string list"
  command :: string
  first_arg_only_flag :: bool
  group_atoms :: bool
  as_pyasp_flag :: bool
  sorted_flag :: bool
  careful_parsing_flag :: bool
  collapse_atoms :: bool
  collapse_args :: bool
  parse_int :: bool
  ignore_args :: bool

definition init :: "string list \<Rightarrow> string \<Rightarrow> answers" where
  "init src cmd = \<lparr> answers_it = src, command = cmd,
     first_arg_only_flag = False, group_atoms = False, as_pyasp_flag = False,
     sorted_flag = False, careful_parsing_flag = False, collapse_atoms = False,
     collapse_args = True, parse_int = True, ignore_args = False \<rparr>"

definition first_arg_only :: "answers \<Rightarrow> answers" where
  "first_arg_only a = a\<lparr>first_arg_only_flag := True\<rparr>"

definition by_predicate :: "answers \<Rightarrow> answers" where
  "by_predicate a = a\<lparr>group_atoms := True\<rparr>"

definition as_pyasp :: "answers \<Rightarrow> answers" where
  "as_pyasp a = a\<lparr>as_pyasp_flag := True\<rparr>"

definition sorted_opt :: "answers \<Rightarrow> answers" where
  "sorted_opt a = a\<lparr>sorted_flag := True\<rparr>"

definition careful_parsing :: "answers \<Rightarrow> answers" where
  "careful_parsing a = a\<lparr>careful_parsing_flag := True\<rparr>"

definition atoms_as_string :: "answers \<Rightarrow> answers" where
  "atoms_as_string a = a\<lparr>collapse_atoms := True, collapse_args := True\<rparr>"

definition int_not_parsed :: "answers \<Rightarrow> answers" where
  "int_not_parsed a = a\<lparr>parse_int := False\<rparr>"

definition parse_args :: "answers \<Rightarrow> answers" where
  "parse_args a = a\<lparr>careful_parsing_flag := True, collapse_atoms := False,
     collapse_args := False\<rparr>"

definition no_arg :: "answers \<Rightarrow> answers" where
  "no_arg a = a\<lparr>ignore_args := True\<rparr>"

text \<open>The option properties by name, for sequences of activations.\<close>

datatype opt = FirstArgOnly | ByPredicate | AsPyasp | Sorted | CarefulParsing
  | AtomsAsString | IntNotParsed | ParseArgs | NoArg

fun activate :: "opt \<Rightarrow> answers \<Rightarrow> answers" where
  "activate FirstArgOnly a = first_arg_only a"
| "activate ByPredicate a = by_predicate a"
| "activate AsPyasp a = as_pyasp a"
| "activate Sorted a = sorted_opt a"
| "activate CarefulParsing a = careful_parsing a"
| "activate AtomsAsString a = atoms_as_string a"
| "activate IntNotParsed a = int_not_parsed a"
| "activate ParseArgs a = parse_args a"
| "activate NoArg a = no_arg a"

definition activate_all :: "opt list \<Rightarrow> answers \<Rightarrow> answers" where
  "activate_all os a = foldl (\<lambda>b opt. activate opt b) a os"

section \<open>The fast splitter\<close>

subsection \<open>Character classes and string primitives\<close>

definition is_lower :: "char \<Rightarrow> bool" where
  "is_lower c = (97 \<le> (of_char c :: nat) \<and> (of_char c :: nat) \<le> 122)"

definition is_upper :: "char \<Rightarrow> bool" where
  "is_upper c = (65 \<le> (of_char c :: nat) \<and> (of_char c :: nat) \<le> 90)"

definition is_decimal :: "char \<Rightarrow> bool" where
  "is_decimal c = (48 \<le> (of_char c :: nat) \<and> (of_char c :: nat) \<le> 57)"

text \<open>The class \<open>[a-zA-Z0-9_]\<close>.\<close>

definition ident_char :: "char \<Rightarrow> bool" where
  "ident_char c = (is_lower c \<or> is_upper c \<or> is_decimal c \<or> c = CHR ''_'')"

text \<open>
  \<open>str.isnumeric\<close>: every character has a numeric value and there is at least one. Up to
  code point 255 the characters with a numeric value are the ten decimal digits, the
  superscripts one, two and three and the fractions one quarter, one half and three
  quarters.
\<close>

definition numeric_char :: "char \<Rightarrow> bool" where
  "numeric_char c = (is_decimal c \<or>
     (of_char c :: nat) \<in> {0xB2, 0xB3, 0xB9, 0xBC, 0xBD, 0xBE})"

definition isnumeric :: "string \<Rightarrow> bool" where
  "isnumeric s = (s \<noteq> [] \<and> list_all numeric_char s)"

definition digit_val :: "char \<Rightarrow> int" where
  "digit_val c = int (of_char c) - 48"

definition decimal_value :: "string \<Rightarrow> int" where
  "decimal_value s = foldl (\<lambda>n c. 10 * n + digit_val c) 0 s"

text \<open>
  \<open>int(arg)\<close> on a string: an optional sign and decimal digits give the integer,
  anything else raises \<open>ValueError\<close>. (The builtin also accepts surrounding white space
  and underscores between digits; no string that passes the test of the splitter has
  either.)
\<close>

definition py_int :: "string \<Rightarrow> error + val" where
  "py_int s =
     (let body = (if s \<noteq> [] \<and> (hd s = CHR ''-'' \<or> hd s = CHR ''+'') then tl s else s) in
      if body \<noteq> [] \<and> list_all is_decimal body
      then Inr (VInt (if s \<noteq> [] \<and> hd s = CHR ''-'' then - decimal_value body
                      else decimal_value body))
      else Inl ValueError)"

text \<open>\<open>args.split(',')\<close>.\<close>

fun split_comma :: "string \<Rightarrow> string list" where
  "split_comma [] = [[]]"
| "split_comma (c # cs) =
     (if c = CHR '','' then [] # split_comma cs
      else (case split_comma cs of
              w # ws \<Rightarrow> (c # w) # ws
            | [] \<Rightarrow> [[c]]))"

subsection \<open>The pattern \<open>([a-z][a-zA-Z0-9_]*)(\([^)]+\))?\<close>\<close>

text \<open>
  The optional second group at the start of \<open>s\<close>: an opening parenthesis, one or more
  characters other than the closing parenthesis, and a closing parenthesis. The result
  is the number of characters the group takes.
\<close>

definition match_group2 :: "string \<Rightarrow> nat option" where
  "match_group2 s =
     (case s of
        [] \<Rightarrow> None
      | c # r \<Rightarrow>
          if c = CHR ''(''
          then (let inner = takeWhile (\<lambda>x. x \<noteq> CHR '')'') r;
                    after = dropWhile (\<lambda>x. x \<noteq> CHR '')'') r
                in if inner \<noteq> [] \<and> after \<noteq> [] then Some (length inner + 2) else None)
          else None)"

text \<open>
  \<open>finditer\<close>: the matches from left to right, each with its two groups; the search
  resumes where the last match ended.
\<close>

function finditer :: "string \<Rightarrow> (string \<times> string option) list" where
  "finditer [] = []"
| "finditer (c # cs) =
     (if is_lower c
      then (let pred = c # takeWhile ident_char cs;
                rest = dropWhile ident_char cs
            in case match_group2 rest of
                 None \<Rightarrow> (pred, None) # finditer rest
               | Some n \<Rightarrow> (pred, Some (take n rest)) # finditer (drop n rest))
      else finditer cs)"
  by pat_completeness auto
termination
  by (relation "measure length")
     (auto simp: less_Suc_eq_le length_dropWhile_le
           intro: le_trans [OF diff_le_self length_dropWhile_le])

subsection \<open>\<open>_parse_answer\<close>, fast branch\<close>

definition startswith :: "string \<Rightarrow> char \<Rightarrow> bool" where
  "startswith s c = (s \<noteq> [] \<and> hd s = c)"

definition endswith :: "string \<Rightarrow> char \<Rightarrow> bool" where
  "endswith s c = (s \<noteq> [] \<and> last s = c)"

text \<open>One argument: \<open>int(arg)\<close> when integers are parsed and the test passes.\<close>

definition convert_arg :: "bool \<Rightarrow> string \<Rightarrow> error + val" where
  "convert_arg pint arg =
     (if pint \<and> isnumeric (if startswith arg CHR ''-'' then tl arg else arg)
      then py_int arg else Inr (VStr arg))"

fun sequence_sum :: "('e + 'a) list \<Rightarrow> 'e + 'a list" where
  "sequence_sum [] = Inr []"
| "sequence_sum (x # xs) =
     (case x of
        Inl e \<Rightarrow> Inl e
      | Inr v \<Rightarrow> (case sequence_sum xs of Inl e \<Rightarrow> Inl e | Inr vs \<Rightarrow> Inr (v # vs)))"

text \<open>The body of the loop over the matches, for one match.\<close>

definition fast_atom :: "bool \<Rightarrow> bool \<Rightarrow> string \<times> string option \<Rightarrow> error + atom" where
  "fast_atom catoms pint m =
     (case m of
        (pred, None) \<Rightarrow> Inr (pred, ArgTuple [])
      | (pred, Some args) \<Rightarrow>
          if \<not> (startswith args CHR ''('' \<and> endswith args CHR '')'') then Inl AssertionError
          else if args = [] then Inr (pred, ArgTuple [])
          else (let inner = butlast (tl args) in
                if catoms
                then Inr (pred, if inner = [] then ArgTuple [] else ArgStr inner)
                else (case sequence_sum (map (convert_arg pint) (split_comma inner)) of
                        Inl e \<Rightarrow> Inl e
                      | Inr vs \<Rightarrow> Inr (pred, ArgTuple vs))))"

definition parse_fast :: "bool \<Rightarrow> bool \<Rightarrow> string \<Rightarrow> error + atom list" where
  "parse_fast catoms pint s = sequence_sum (map (fast_atom catoms pint) (finditer s))"

section \<open>Ordering and containers\<close>

subsection \<open>The order of Python on terms\<close>

fun str_lt :: "string \<Rightarrow> string \<Rightarrow> bool" where
  "str_lt [] [] = False"
| "str_lt [] (b # bs) = True"
| "str_lt (a # as) [] = False"
| "str_lt (a # as) (b # bs) =
     (if a = b then str_lt as bs else (of_char a :: nat) < of_char b)"

text \<open>
  \<open>x < y\<close>: integers by value, strings by code points, tuples at the first position
  where they differ (the shorter first when one is a prefix of the other); any other
  pair raises \<open>TypeError\<close>.
\<close>

fun py_lt :: "val \<Rightarrow> val \<Rightarrow> error + bool"
  and py_lt_tuple :: "val list \<Rightarrow> val list \<Rightarrow> error + bool" where
  "py_lt (VInt i) (VInt j) = Inr (i < j)"
| "py_lt (VStr s) (VStr t) = Inr (str_lt s t)"
| "py_lt (VTuple xs) (VTuple ys) = py_lt_tuple xs ys"
| "py_lt (VInt i) (VStr t) = Inl TypeError"
| "py_lt (VInt i) (VTuple ys) = Inl TypeError"
| "py_lt (VStr s) (VInt j) = Inl TypeError"
| "py_lt (VStr s) (VTuple ys) = Inl TypeError"
| "py_lt (VTuple xs) (VInt j) = Inl TypeError"
| "py_lt (VTuple xs) (VStr t) = Inl TypeError"
| "py_lt_tuple [] [] = Inr False"
| "py_lt_tuple [] (y # ys) = Inr True"
| "py_lt_tuple (x # xs) [] = Inr False"
| "py_lt_tuple (x # xs) (y # ys) = (if x = y then py_lt_tuple xs ys else py_lt x y)"

subsection \<open>\<open>sorted\<close>\<close>

text \<open>
  \<open>sorted(it)\<close> with the comparison \<open>lt\<close>: a stable insertion sort. A comparison that
  raises ends the sort with its error.
\<close>

fun insort_py :: "('e \<Rightarrow> 'e \<Rightarrow> error + bool) \<Rightarrow> 'e \<Rightarrow> 'e list \<Rightarrow> error + 'e list" where
  "insort_py lt x [] = Inr [x]"
| "insort_py lt x (y # ys) =
     (case lt y x of
        Inl e \<Rightarrow> Inl e
      | Inr True \<Rightarrow> (case insort_py lt x ys of Inl e \<Rightarrow> Inl e | Inr zs \<Rightarrow> Inr (y # zs))
      | Inr False \<Rightarrow> Inr (x # y # ys))"

fun py_sorted :: "('e \<Rightarrow> 'e \<Rightarrow> error + bool) \<Rightarrow> 'e list \<Rightarrow> error + 'e list" where
  "py_sorted lt [] = Inr []"
| "py_sorted lt (x # xs) =
     (case py_sorted lt xs of Inl e \<Rightarrow> Inl e | Inr ys \<Rightarrow> insort_py lt x ys)"

subsection \<open>Containers and formatted answers\<close>

datatype 'e container = FrozenSet "'e set" | SortedTuple "'e list"

text \<open>\<open>builder = sorted_tuple if self._sorted else frozenset\<close>.\<close>

definition builder ::
  "bool \<Rightarrow> ('e \<Rightarrow> 'e \<Rightarrow> error + bool) \<Rightarrow> 'e list \<Rightarrow> error + 'e container" where
  "builder srt lt xs =
     (if srt then (case py_sorted lt xs of Inl e \<Rightarrow> Inl e | Inr ys \<Rightarrow> Inr (SortedTuple ys))
      else Inr (FrozenSet (set xs)))"

text \<open>
  The collaborators outside the answers module: the careful parser
  \<open>parsing.Parser(collapse_atoms, collapse_args, parse_integer).parse_terms\<close>, the
  constructor \<open>as_pyasp.Atom\<close> and the order of its values.
\<close>

record 'a env =
  parse_terms :: "bool \<Rightarrow> bool \<Rightarrow> bool \<Rightarrow> string \<Rightarrow> error + atom list"
  make_atom :: "string \<Rightarrow> val \<Rightarrow> 'a"
  atom_lt :: "'a \<Rightarrow> 'a \<Rightarrow> error + bool"

text \<open>An element of a formatted answer: a Python value or a wrapped atom.\<close>

datatype 'a item = Val val | Legacy 'a

fun item_lt :: "'a env \<Rightarrow> 'a item \<Rightarrow> 'a item \<Rightarrow> error + bool" where
  "item_lt env (Val x) (Val y) = py_lt x y"
| "item_lt env (Legacy x) (Legacy y) = atom_lt env x y"
| "item_lt env (Val x) (Legacy y) = Inl TypeError"
| "item_lt env (Legacy x) (Val y) = Inl TypeError"

datatype 'a formatted =
  Flat "'a item container"
| Grouped "string \<Rightarrow> 'a item container option"

section \<open>\<open>_parse_answer\<close>\<close>

definition parse_answer :: "'a env \<Rightarrow> answers \<Rightarrow> string \<Rightarrow> error + atom list" where
  "parse_answer env a s =
     (if careful_parsing_flag a
      then parse_terms env (collapse_atoms a) (collapse_args a) (parse_int a) s
      else parse_fast (collapse_atoms a) (parse_int a) s)"

section \<open>\<open>_format\<close>\<close>

text \<open>\<open>args[0] if args else ()\<close>; a string is the sequence of its characters.\<close>

fun first_arg :: "pargs \<Rightarrow> val" where
  "first_arg (ArgTuple []) = VTuple []"
| "first_arg (ArgTuple (x # xs)) = x"
| "first_arg (ArgStr []) = VTuple []"
| "first_arg (ArgStr (c # cs)) = VStr [c]"

text \<open>\<open>tuple(args)\<close>.\<close>

fun tuple_of :: "pargs \<Rightarrow> val" where
  "tuple_of (ArgTuple xs) = VTuple xs"
| "tuple_of (ArgStr s) = VTuple (map (\<lambda>c. VStr [c]) s)"

text \<open>The Python pair \<open>(pred, args)\<close> as a value, and the order of such pairs.\<close>

definition pair_val :: "string \<times> val \<Rightarrow> val" where
  "pair_val pa = VTuple [VStr (fst pa), snd pa]"

definition pair_lt :: "string \<times> val \<Rightarrow> string \<times> val \<Rightarrow> error + bool" where
  "pair_lt pa qb = py_lt (pair_val pa) (pair_val qb)"

text \<open>
  The pairs handed to the builder when the arguments are kept: the first argument alone,
  or all of them as a tuple.
\<close>

definition atom_pairs :: "answers \<Rightarrow> atom list \<Rightarrow> (string \<times> val) list" where
  "atom_pairs a answer_set =
     (if first_arg_only_flag a
      then map (\<lambda>(pred, args). (pred, first_arg args)) answer_set
      else map (\<lambda>(pred, args). (pred, tuple_of args)) answer_set)"

text \<open>What the grouping loop adds to \<open>mapping[pred]\<close> for the pair \<open>(pred, args)\<close>.\<close>

definition grouped_item :: "'a env \<Rightarrow> answers \<Rightarrow> string \<Rightarrow> val \<Rightarrow> 'a item" where
  "grouped_item env a pred args =
     (if as_pyasp_flag a then Legacy (make_atom env pred args) else Val args)"

text \<open>
  The grouping loop and the final dictionary. The answer set is a tuple exactly when the
  builder sorts; then the set \<open>mapping[pred]\<close> is sorted from the order in which its
  elements were added.
\<close>

definition group_sorted ::
  "'a env \<Rightarrow> answers \<Rightarrow> (string \<times> val) list \<Rightarrow> error + 'a formatted" where
  "group_sorted env a xs =
     (case sequence_sum
             (map (\<lambda>p. case py_sorted (item_lt env)
                              (remdups (map (\<lambda>x. grouped_item env a p (snd x))
                                            (filter (\<lambda>x. fst x = p) xs))) of
                          Inl e \<Rightarrow> Inl e
                        | Inr ys \<Rightarrow> Inr (p, SortedTuple ys))
                  (remdups (map fst xs))) of
        Inl e \<Rightarrow> Inl e
      | Inr kvs \<Rightarrow> Inr (Grouped (map_of kvs)))"

definition group_set :: "'a env \<Rightarrow> answers \<Rightarrow> (string \<times> val) set \<Rightarrow> 'a formatted" where
  "group_set env a S =
     Grouped (\<lambda>p. if p \<in> fst ` S
                  then Some (FrozenSet ((\<lambda>x. grouped_item env a p (snd x)) `
                                         Set.filter (\<lambda>x. fst x = p) S))
                  else None)"

definition format :: "'a env \<Rightarrow> answers \<Rightarrow> atom list \<Rightarrow> error + 'a formatted" where
  "format env a answer_set =
     (if ignore_args a then
        (let preds = map fst answer_set in
         if group_atoms a
         then Inr (Grouped (\<lambda>p. if p \<in> set preds then Some (FrozenSet {}) else None))
         else if as_pyasp_flag a
         then (case builder (sorted_flag a) (item_lt env)
                      (map (\<lambda>p. Legacy (make_atom env p (VTuple []))) preds) of
                 Inl e \<Rightarrow> Inl e | Inr c \<Rightarrow> Inr (Flat c))
         else (case builder (sorted_flag a) (item_lt env) (map (\<lambda>p. Val (VStr p)) preds) of
                 Inl e \<Rightarrow> Inl e | Inr c \<Rightarrow> Inr (Flat c)))
      else
        (case builder (sorted_flag a) pair_lt (atom_pairs a answer_set) of
           Inl e \<Rightarrow> Inl e
         | Inr (FrozenSet S) \<Rightarrow>
             if group_atoms a then Inr (group_set env a S)
             else if as_pyasp_flag a
             then Inr (Flat (FrozenSet ((\<lambda>(pred, args). Legacy (make_atom env pred args)) ` S)))
             else Inr (Flat (FrozenSet ((\<lambda>pa. Val (pair_val pa)) ` S)))
         | Inr (SortedTuple xs) \<Rightarrow>
             if group_atoms a then group_sorted env a xs
             else if as_pyasp_flag a
             then (case py_sorted (item_lt env)
                          (map (\<lambda>(pred, args). Legacy (make_atom env pred args)) xs) of
                     Inl e \<Rightarrow> Inl e | Inr ys \<Rightarrow> Inr (Flat (SortedTuple ys)))
             else Inr (Flat (SortedTuple (map (\<lambda>pa. Val (pair_val pa)) xs)))))"

section \<open>Iteration\<close>

text \<open>
  \<open>__iter__\<close>: the loop over the stored iterator. The result is the answers yielded, the
  exception that ended the loop if there was one, and what is left in the iterator.
\<close>

fun iter_from ::
  "'a env \<Rightarrow> answers \<Rightarrow> string list \<Rightarrow> 'a formatted list \<times> error option \<times> string list" where
  "iter_from env a [] = ([], None, [])"
| "iter_from env a (s # rest) =
     (case parse_answer env a s of
        Inl e \<Rightarrow> ([], Some e, rest)
      | Inr answer_set \<Rightarrow>
          (case format env a answer_set of
             Inl e \<Rightarrow> ([], Some e, rest)
           | Inr v \<Rightarrow> (case iter_from env a rest of (vs, e, r) \<Rightarrow> (v # vs, e, r))))"

definition iterate ::
  "'a env \<Rightarrow> answers \<Rightarrow> 'a formatted list \<times> error option \<times> answers" where
  "iterate env a =
     (case iter_from env a (answers_it a) of (vs, e, r) \<Rightarrow> (vs, e, a\<lparr>answers_it := r\<rparr>))"

text \<open>\<open>__next__\<close>: the first answer of a new loop over the same iterator.\<close>

definition next_answer :: "'a env \<Rightarrow> answers \<Rightarrow> (error + 'a formatted) \<times> answers" where
  "next_answer env a =
     (case answers_it a of
        [] \<Rightarrow> (Inl StopIteration, a)
      | s # rest \<Rightarrow>
          (case parse_answer env a s of
             Inl e \<Rightarrow> (Inl e, a\<lparr>answers_it := rest\<rparr>)
           | Inr answer_set \<Rightarrow> (format env a answer_set, a\<lparr>answers_it := rest\<rparr>)))"

section \<open>Notions used in the statements\<close>

text \<open>The elements of a container as a set, and a formatted answer read without order.\<close>

fun as_set :: "'e container \<Rightarrow> 'e container" where
  "as_set (FrozenSet S) = FrozenSet S"
| "as_set (SortedTuple xs) = FrozenSet (set xs)"

fun unordered :: "'a formatted \<Rightarrow> 'a formatted" where
  "unordered (Flat c) = Flat (as_set c)"
| "unordered (Grouped m) = Grouped (\<lambda>p. map_option as_set (m p))"




text \<open>
  A concrete choice of the collaborators for evaluating examples: a wrapped atom is the
  pair of its predicate and arguments, ordered as pairs are, and the careful parser is
  the fast splitter with integers parsed or not.
\<close>

definition example_env :: "(string \<times> val) env" where
  "example_env = \<lparr> parse_terms = (\<lambda>catoms cargs pint s. parse_fast catoms pint s),
     make_atom = (\<lambda>pred args. (pred, args)), atom_lt = pair_lt \<rparr>"

section \<open>Option activation\<close>

text \<open>
  C2. Whatever the object and whatever options were activated before (among them
  \<open>atoms_as_string\<close>), after activating \<open>parse_args\<close> careful parsing is on and both
  collapse flags are off, and parsing an answer set calls the careful parser with no
  collapsing.
\<close>

theorem parse_args_forces_careful_no_collapse:
  "careful_parsing_flag (parse_args (activate_all os a)) \<and>
   \<not> collapse_atoms (parse_args (activate_all os a)) \<and>
   \<not> collapse_args (parse_args (activate_all os a)) \<and>
   parse_answer env (parse_args (activate_all os a)) s =
     parse_terms env False False (parse_int (activate_all os a)) s"
  by (simp add: parse_args_def parse_answer_def)

section \<open>The pattern of the fast splitter\<close>

lemma take_length_append_hd:
  "ys \<noteq> [] \<Longrightarrow> take (length xs + 1) (xs @ ys) = xs @ [hd ys]"
  by (cases ys) simp_all

lemma match_group2_shape:
  assumes "match_group2 s = Some n"
  shows "startswith (take n s) CHR ''('' \<and> endswith (take n s) CHR '')''"
proof -
  let ?P = "\<lambda>x. x \<noteq> CHR '')''"
  from assms obtain r where s: "s = CHR ''('' # r"
    by (auto simp: match_group2_def split: list.splits if_splits)
  from assms s have after: "dropWhile ?P r \<noteq> []"
    and n: "n = length (takeWhile ?P r) + 2"
    by (auto simp: match_group2_def Let_def split: if_splits)
  from after have closing: "hd (dropWhile ?P r) = CHR '')''"
    using hd_dropWhile [of ?P r] by simp
  have "take (length (takeWhile ?P r) + 1) (takeWhile ?P r @ dropWhile ?P r)
        = takeWhile ?P r @ [hd (dropWhile ?P r)]"
    using after by (rule take_length_append_hd)
  then have "take (length (takeWhile ?P r) + 1) r = takeWhile ?P r @ [CHR '')'']"
    using closing by simp
  with s n show ?thesis
    by (simp add: startswith_def endswith_def)
qed

lemma finditer_group2:
  "(pred, Some g) \<in> set (finditer s) \<Longrightarrow> startswith g CHR ''('' \<and> endswith g CHR '')''"
proof (induction s rule: finditer.induct)
  case 1
  then show ?case by simp
next
  case (2 c cs)
  show ?case
  proof (cases "is_lower c")
    case False
    with 2 show ?thesis by simp
  next
    case True
    show ?thesis
    proof (cases "match_group2 (dropWhile ident_char cs)")
      case None
      with True 2 show ?thesis by (auto simp: Let_def)
    next
      case (Some n)
      with True 2 match_group2_shape [OF Some] show ?thesis by (auto simp: Let_def)
    qed
  qed
qed

lemma sequence_sum_error:
  "sequence_sum xs = Inl e \<Longrightarrow> Inl e \<in> set xs"
  by (induction xs) (auto split: sum.splits)

lemma convert_arg_error:
  "convert_arg pint arg = Inl e \<Longrightarrow> e = ValueError"
  by (auto simp: convert_arg_def py_int_def Let_def split: if_splits)

lemma convert_args_no_assertion:
  "sequence_sum (map (convert_arg pint) args) \<noteq> Inl AssertionError"
proof
  assume "sequence_sum (map (convert_arg pint) args) = Inl AssertionError"
  then have "Inl AssertionError \<in> set (map (convert_arg pint) args)"
    by (rule sequence_sum_error)
  then obtain arg where "convert_arg pint arg = Inl AssertionError" by auto
  then show False by (auto dest: convert_arg_error)
qed

lemma fast_atom_no_assertion:
  "m \<in> set (finditer s) \<Longrightarrow> fast_atom catoms pint m \<noteq> Inl AssertionError"
proof (cases m)
  case (Pair pred g)
  assume "m \<in> set (finditer s)"
  with Pair show ?thesis
    using finditer_group2 [of pred _ s] convert_args_no_assertion [of pint]
    by (cases g) (auto simp: fast_atom_def Let_def split: sum.splits)
qed

text \<open>
  C10. In every match of the pattern, on every input, the second group is absent or
  starts with an opening and ends with a closing parenthesis; so the assertion of the
  fast branch holds at every match and the branch never raises \<open>AssertionError\<close>.
\<close>

theorem fast_pattern_group_parenthesised:
  "(\<forall>m \<in> set (finditer s).
      snd m = None \<or>
      (\<exists>g. snd m = Some g \<and> startswith g CHR ''('' \<and> endswith g CHR '')'')) \<and>
   parse_fast catoms pint s \<noteq> Inl AssertionError"
proof
  show "\<forall>m \<in> set (finditer s).
      snd m = None \<or>
      (\<exists>g. snd m = Some g \<and> startswith g CHR ''('' \<and> endswith g CHR '')'')"
  proof
    fix m assume m: "m \<in> set (finditer s)"
    obtain pred g where "m = (pred, g)" by (cases m)
    with m finditer_group2 [of pred _ s] show
      "snd m = None \<or> (\<exists>g. snd m = Some g \<and> startswith g CHR ''('' \<and> endswith g CHR '')'')"
      by (cases g) auto
  qed
next
  show "parse_fast catoms pint s \<noteq> Inl AssertionError"
  proof
    assume "parse_fast catoms pint s = Inl AssertionError"
    then have "Inl AssertionError \<in> set (map (fast_atom catoms pint) (finditer s))"
      unfolding parse_fast_def by (rule sequence_sum_error)
    then obtain m where "m \<in> set (finditer s)" "fast_atom catoms pint m = Inl AssertionError"
      by auto
    with fast_atom_no_assertion show False by blast
  qed
qed

lemma finditer_example:
  "finditer ''p(1,b) q'' = [(''p'', Some ''(1,b)''), (''q'', None)]"
  by (simp add: is_lower_def ident_char_def is_upper_def is_decimal_def
      match_group2_def Let_def)

theorem fast_pattern_group_parenthesised_witness:
  "(''p'', Some ''(1,b)'') \<in> set (finditer ''p(1,b) q'') \<and>
   startswith ''(1,b)'' CHR ''('' \<and> endswith ''(1,b)'' CHR '')'' \<and>
   parse_fast False True ''p(1,b) q'' \<noteq> Inl AssertionError"
proof -
  have mem: "(''p'', Some ''(1,b)'') \<in> set (finditer ''p(1,b) q'')"
    by (simp only: finditer_example list.set insertI1)
  note inst = fast_pattern_group_parenthesised [of "''p(1,b) q''" False True]
  from inst have groups: "\<forall>m \<in> set (finditer ''p(1,b) q'').
      snd m = None \<or>
      (\<exists>g. snd m = Some g \<and> startswith g CHR ''('' \<and> endswith g CHR '')'')"
    by (rule conjunct1)
  from inst have no_assert: "parse_fast False True ''p(1,b) q'' \<noteq> Inl AssertionError"
    by (rule conjunct2)
  from bspec [OF groups mem]
  have shape: "startswith ''(1,b)'' CHR ''('' \<and> endswith ''(1,b)'' CHR '')''"
    by simp
  show ?thesis
    by (rule conjI [OF mem conjI [OF conjunct1 [OF shape] conjI [OF conjunct2 [OF shape] no_assert]]])
qed

section \<open>Scenarios\<close>

text \<open>
  C8. The five raw answer sets \<open>d a\<close>, \<open>d b\<close>, \<open>d c\<close>, \<open>e\<close> and the empty string, iterated
  with \<open>no_arg\<close> active, give in this order the sets of predicate names \<open>{d, a}\<close>,
  \<open>{d, b}\<close>, \<open>{d, c}\<close>, \<open>{e}\<close> and the empty set.
\<close>

theorem no_arg_scenario:
  "fst (iterate env (no_arg (init [''d a'', ''d b'', ''d c'', ''e'', []] cmd))) =
     [Flat (FrozenSet {Val (VStr ''d''), Val (VStr ''a'')}),
      Flat (FrozenSet {Val (VStr ''d''), Val (VStr ''b'')}),
      Flat (FrozenSet {Val (VStr ''d''), Val (VStr ''c'')}),
      Flat (FrozenSet {Val (VStr ''e'')}),
      Flat (FrozenSet {})]"
  by (simp add: iterate_def no_arg_def init_def parse_answer_def parse_fast_def
      fast_atom_def format_def builder_def is_lower_def ident_char_def is_upper_def
      is_decimal_def match_group2_def Let_def)

lemma group_set_rel:
  assumes "\<not> as_pyasp_flag a"
  shows "group_set env a {(''rel'', VStr ''a''), (''rel'', VStr ''b'')} =
     Grouped [''rel'' \<mapsto> FrozenSet {Val (VStr ''a''), Val (VStr ''b'')}]"
proof -
  have filt: "Set.filter (\<lambda>x. fst x = ''rel'') {(''rel'', VStr ''a''), (''rel'', VStr ''b'')}
     = {(''rel'', VStr ''a''), (''rel'', VStr ''b'')}"
    by auto
  have "(\<lambda>p. if p \<in> fst ` {(''rel'', VStr ''a''), (''rel'', VStr ''b'')}
                  then Some (FrozenSet ((\<lambda>x. grouped_item env a p (snd x)) `
                                         Set.filter (\<lambda>x. fst x = p) {(''rel'', VStr ''a''), (''rel'', VStr ''b'')}))
                  else None) = [''rel'' \<mapsto> FrozenSet {Val (VStr ''a''), Val (VStr ''b'')}]"
  proof (rule ext)
    fix p :: string
    show "(if p \<in> fst ` {(''rel'', VStr ''a''), (''rel'', VStr ''b'')}
                  then Some (FrozenSet ((\<lambda>x. grouped_item env a p (snd x)) `
                                         Set.filter (\<lambda>x. fst x = p) {(''rel'', VStr ''a''), (''rel'', VStr ''b'')}))
                  else None) = [''rel'' \<mapsto> FrozenSet {Val (VStr ''a''), Val (VStr ''b'')}] p"
    proof (cases "p = ''rel''")
      case True
      then show ?thesis using assms filt by (simp add: grouped_item_def)
    next
      case False
      then show ?thesis by simp
    qed
  qed
  then show ?thesis
    unfolding group_set_def by (rule arg_cong [where f = Grouped])
qed

lemma format_rel:
  "format env (first_arg_only (by_predicate (init src cmd)))
     [(''rel'', ArgTuple [VStr ''a'', VStr ''c'']),
      (''rel'', ArgTuple [VStr ''a'', VStr ''d'']),
      (''rel'', ArgTuple [VStr ''b'', VStr ''d'']),
      (''rel'', ArgTuple [VStr ''b'', VStr ''e''])] =
   Inr (group_set env (first_arg_only (by_predicate (init src cmd)))
          {(''rel'', VStr ''a''), (''rel'', VStr ''b'')})"
  by (simp add: format_def first_arg_only_def by_predicate_def init_def builder_def
      atom_pairs_def)


lemma parse_fast_rel:
  "parse_fast False True ''rel(a,c) rel(a,d) rel(b,d) rel(b,e)'' =
     Inr [(''rel'', ArgTuple [VStr ''a'', VStr ''c'']),
          (''rel'', ArgTuple [VStr ''a'', VStr ''d'']),
          (''rel'', ArgTuple [VStr ''b'', VStr ''d'']),
          (''rel'', ArgTuple [VStr ''b'', VStr ''e''])]"
  by code_simp

text \<open>
  C9. The raw answer set \<open>rel(a,c) rel(a,d) rel(b,d) rel(b,e)\<close>, iterated with
  \<open>by_predicate\<close> and \<open>first_arg_only\<close> active and \<open>sorted\<close> not, gives the dictionary with
  the single key \<open>rel\<close> and the set \<open>{a, b}\<close>: equal first arguments are one element.
\<close>

theorem by_predicate_first_arg_scenario:
  "fst (iterate env (first_arg_only (by_predicate
          (init [''rel(a,c) rel(a,d) rel(b,d) rel(b,e)''] cmd)))) =
     [Grouped [''rel'' \<mapsto> FrozenSet {Val (VStr ''a''), Val (VStr ''b'')}]]"
proof -
  define a where "a = first_arg_only (by_predicate (init [''rel(a,c) rel(a,d) rel(b,d) rel(b,e)''] cmd))"
  have flags: "\<not> as_pyasp_flag a" "\<not> careful_parsing_flag a" "\<not> collapse_atoms a"
    "parse_int a" "answers_it a = [''rel(a,c) rel(a,d) rel(b,d) rel(b,e)'']"
    by (simp_all add: a_def first_arg_only_def by_predicate_def init_def)
  have parsed: "parse_answer env a ''rel(a,c) rel(a,d) rel(b,d) rel(b,e)'' =
     Inr [(''rel'', ArgTuple [VStr ''a'', VStr ''c'']),
          (''rel'', ArgTuple [VStr ''a'', VStr ''d'']),
          (''rel'', ArgTuple [VStr ''b'', VStr ''d'']),
          (''rel'', ArgTuple [VStr ''b'', VStr ''e''])]"
    by (simp only: parse_answer_def flags if_False if_True parse_fast_rel)
  have fmt: "format env a
     [(''rel'', ArgTuple [VStr ''a'', VStr ''c'']),
      (''rel'', ArgTuple [VStr ''a'', VStr ''d'']),
      (''rel'', ArgTuple [VStr ''b'', VStr ''d'']),
      (''rel'', ArgTuple [VStr ''b'', VStr ''e''])] =
     Inr (Grouped [''rel'' \<mapsto> FrozenSet {Val (VStr ''a''), Val (VStr ''b'')}])"
    unfolding a_def
    by (simp only: format_rel group_set_rel [OF flags(1) [unfolded a_def]])
  have "iter_from env a [''rel(a,c) rel(a,d) rel(b,d) rel(b,e)''] =
     ([Grouped [''rel'' \<mapsto> FrozenSet {Val (VStr ''a''), Val (VStr ''b'')}]], None, [])"
    by (simp only: iter_from.simps parsed fmt sum.case prod.case)
  then show ?thesis
    by (simp only: iterate_def a_def [symmetric] flags(5) prod.case fst_conv)
qed

section \<open>Iteration and the stored iterator\<close>

lemma parse_fast_a: "parse_fast False True ''a'' = Inr [(''a'', ArgTuple [])]"
  by code_simp

lemma iterate_once:
  "iterate env (init [''a''] cmd) =
     ([Flat (FrozenSet {Val (VTuple [VStr ''a'', VTuple []])})], None, init [] cmd)"
  by (simp add: iterate_def init_def parse_answer_def parse_fast_a format_def builder_def
      atom_pairs_def pair_val_def)

lemma iterate_exhausted: "iterate env (init [] cmd) = ([], None, init [] cmd)"
  by (simp add: iterate_def init_def)

lemma iter_from_complete:
  "iter_from env a xs = (vs, None, r) \<Longrightarrow> r = []"
  by (induction xs arbitrary: vs) (auto split: sum.splits prod.splits)

text \<open>
  C1 (amended). The object is single-pass whatever its source: the constructor keeps one
  iterator over the source, and every iteration reads from it. After an iteration that
  ran to the end without an exception, the iterator is exhausted, so iterating the
  object again yields no answer at all (and leaves the object as it is).
\<close>

theorem second_iteration_is_empty:
  assumes "iterate env a = (vs, None, a')"
  shows "iterate env a' = ([], None, a')"
proof -
  obtain ws e r where it: "iter_from env a (answers_it a) = (ws, e, r)"
    by (cases "iter_from env a (answers_it a)")
  with assms have "e = None" and a': "a' = a\<lparr>answers_it := r\<rparr>"
    by (simp_all add: iterate_def)
  with it have "r = []" using iter_from_complete by blast
  with a' show ?thesis by (simp add: iterate_def)
qed

theorem second_iteration_is_empty_witness:
  "iterate example_env (init [''a''] []) =
     ([Flat (FrozenSet {Val (VTuple [VStr ''a'', VTuple []])})], None, init [] []) \<and>
   iterate example_env (init [] []) = ([], None, init [] [])"
  by (rule conjI [OF iterate_once second_iteration_is_empty [OF iterate_once]])

text \<open>
  The source is the list with the one answer set \<open>a\<close>. The first iteration yields one
  answer; the second, on the object the first one left, yields none.
\<close>

theorem second_iteration_differs:
  "fst (iterate example_env (init [''a''] [])) =
     [Flat (FrozenSet {Val (VTuple [VStr ''a'', VTuple []])})] \<and>
   fst (iterate example_env (snd (snd (iterate example_env (init [''a''] []))))) = [] \<and>
   fst (iterate example_env (snd (snd (iterate example_env (init [''a''] []))))) \<noteq>
     fst (iterate example_env (init [''a''] []))"
  by (simp only: iterate_once iterate_exhausted fst_conv snd_conv) simp

section \<open>Integer arguments in the fast splitter\<close>

lemma parse_fast_superscript:
  "parse_fast False True [CHR ''p'', CHR ''('', CHR 0xB2, CHR '')''] = Inl ValueError"
  by code_simp

text \<open>
  C5. The raw answer set is \<open>p(x)\<close> with the character of code point 178 (superscript
  two) for \<open>x\<close>, and the options are the default ones. The argument passes the test
  \<open>isnumeric\<close>, \<open>int\<close> rejects it, and the iteration ends with \<open>ValueError\<close> before any
  answer is yielded.
\<close>

theorem numeric_argument_raises:
  "iterate env (init [[CHR ''p'', CHR ''('', CHR 0xB2, CHR '')'']] cmd) =
     ([], Some ValueError, init [] cmd)"
  by (simp add: iterate_def init_def parse_answer_def parse_fast_superscript)

section \<open>First argument only\<close>

lemma parse_fast_collapsed:
  "parse_fast True True ''p(abc,d)'' = Inr [(''p'', ArgStr ''abc,d'')]"
  by code_simp

text \<open>
  C7. With \<open>atoms_as_string\<close> and \<open>first_arg_only\<close> active (fast splitter), the atom
  \<open>p(abc,d)\<close> is formatted as the pair of \<open>p\<close> and the one-character string \<open>a\<close>: the
  arguments are kept as the string \<open>abc,d\<close>, and \<open>args[0]\<close> is its first character.
\<close>

theorem first_arg_of_collapsed_atom:
  "fst (iterate env (first_arg_only (atoms_as_string (init [''p(abc,d)''] cmd)))) =
     [Flat (FrozenSet {Val (VTuple [VStr ''p'', VStr ''a''])})]"
  by (simp add: iterate_def init_def first_arg_only_def atoms_as_string_def parse_answer_def
      parse_fast_collapsed format_def builder_def atom_pairs_def pair_val_def)

section \<open>Sorting with the order of Python\<close>

lemma insort_py_mset:
  "insort_py lt x ys = Inr zs \<Longrightarrow> mset zs = add_mset x (mset ys)"
  by (induction ys arbitrary: zs) (auto split: sum.splits bool.splits if_splits)

lemma py_sorted_mset:
  "py_sorted lt xs = Inr ys \<Longrightarrow> mset ys = mset xs"
  by (induction xs arbitrary: ys) (auto split: sum.splits dest: insort_py_mset)

lemma py_sorted_set:
  "py_sorted lt xs = Inr ys \<Longrightarrow> set ys = set xs"
  using py_sorted_mset [of lt xs ys] by (metis set_mset_mset)





lemma sequence_sum_Inr:
  "sequence_sum xs = Inr vs \<Longrightarrow> xs = map Inr vs"
  by (induction xs arbitrary: vs) (auto split: sum.splits)

lemma str_lt_irrefl: "\<not> str_lt s s"
  by (induction s) auto

lemma py_lt_tuple_refl: "py_lt_tuple xs xs = Inr False"
  by (induction xs) auto

lemma py_lt_refl: "py_lt x x = Inr False"
  by (cases x) (auto simp: str_lt_irrefl py_lt_tuple_refl)

lemma pair_lt_same_pred:
  "pair_lt (p, x) (p, y) = py_lt x y"
  by (simp add: pair_lt_def pair_val_def py_lt_refl)


section \<open>The sorted option\<close>



lemma format_mixed_sorted:
  "format env (sorted_opt (init src cmd))
     [(''p'', ArgTuple [VInt 1]), (''p'', ArgTuple [VStr ''a''])] = Inl TypeError"
  by (simp add: sorted_opt_def init_def format_def builder_def atom_pairs_def pair_lt_def
      pair_val_def)

lemma format_mixed_unsorted:
  "format env (init src cmd) [(''p'', ArgTuple [VInt 1]), (''p'', ArgTuple [VStr ''a''])] =
     Inr (Flat (FrozenSet {Val (VTuple [VStr ''p'', VTuple [VInt 1]]),
                           Val (VTuple [VStr ''p'', VTuple [VStr ''a'']])}))"
  by (simp add: init_def format_def builder_def atom_pairs_def pair_val_def)

lemma format_ints_sorted:
  "format env (sorted_opt (init src cmd))
     [(''p'', ArgTuple [VInt 2]), (''p'', ArgTuple [VInt 1])] =
   Inr (Flat (SortedTuple [Val (VTuple [VStr ''p'', VTuple [VInt 1]]),
                           Val (VTuple [VStr ''p'', VTuple [VInt 2]])]))"
  by (simp add: sorted_opt_def init_def format_def builder_def atom_pairs_def pair_lt_def
      pair_val_def)










section \<open>Sorted and unsorted output\<close>

lemma sequence_sum_map_of:
  assumes "sequence_sum (map (\<lambda>k. case g k of Inl e \<Rightarrow> Inl e | Inr ys \<Rightarrow> Inr (k, h ys)) ks)
           = Inr kvs"
  shows "map_of kvs k =
           (if k \<in> set ks then (case g k of Inl e \<Rightarrow> None | Inr ys \<Rightarrow> Some (h ys)) else None)"
    and "k \<in> set ks \<Longrightarrow> \<not> isl (g k)"
  using assms
  by (induction ks arbitrary: kvs) (auto split: sum.splits)

lemma group_sorted_unordered:
  assumes "group_sorted env a xs = Inr r"
  shows "unordered r = group_set env a (set xs)"
proof -
  let ?items = "\<lambda>p. remdups (map (\<lambda>x. grouped_item env a p (snd x)) (filter (\<lambda>x. fst x = p) xs))"
  let ?g = "\<lambda>p. py_sorted (item_lt env) (?items p)"
  let ?keys = "remdups (map fst xs)"
  from assms obtain kvs where
    kvs: "sequence_sum (map (\<lambda>p. case ?g p of Inl e \<Rightarrow> Inl e | Inr ys \<Rightarrow> Inr (p, SortedTuple ys))
            ?keys) = Inr kvs"
    and r: "r = Grouped (map_of kvs)"
    by (auto simp: group_sorted_def split: sum.splits)
  have "map_option as_set (map_of kvs p) =
          (if p \<in> fst ` set xs
           then Some (FrozenSet ((\<lambda>x. grouped_item env a p (snd x)) ` Set.filter (\<lambda>x. fst x = p) (set xs)))
           else None)" for p
  proof (cases "p \<in> fst ` set xs")
    case False
    then have "p \<notin> set ?keys" by simp
    with sequence_sum_map_of(1) [OF kvs, of p] False show ?thesis by simp
  next
    case True
    then have key: "p \<in> set ?keys" by simp
    with sequence_sum_map_of(2) [OF kvs, of p] obtain ys where ys: "?g p = Inr ys"
      by (cases "?g p") auto
    then have "set ys = set (?items p)" by (rule py_sorted_set)
    then have "set ys = (\<lambda>x. grouped_item env a p (snd x)) ` Set.filter (\<lambda>x. fst x = p) (set xs)"
      by auto
    with sequence_sum_map_of(1) [OF kvs, of p] key ys True show ?thesis by simp
  qed
  with r show ?thesis by (simp add: group_set_def)
qed

lemma atom_pairs_sorted_flag [simp]:
  "atom_pairs (a\<lparr>sorted_flag := b\<rparr>) answer_set = atom_pairs a answer_set"
  by (simp add: atom_pairs_def)

lemma grouped_item_sorted_flag:
  "grouped_item env (a\<lparr>sorted_flag := b\<rparr>) = grouped_item env a"
  by (rule ext, rule ext) (simp add: grouped_item_def)

lemma group_set_sorted_flag [simp]:
  "group_set env (a\<lparr>sorted_flag := b\<rparr>) S = group_set env a S"
  unfolding group_set_def grouped_item_sorted_flag by (rule refl)

lemma group_sorted_sorted_flag [simp]:
  "group_sorted env (a\<lparr>sorted_flag := b\<rparr>) xs = group_sorted env a xs"
  unfolding group_sorted_def grouped_item_sorted_flag by (rule refl)

lemma sorted_opt_as_update: "sorted_opt a = a\<lparr>sorted_flag := True\<rparr>"
  by (simp add: sorted_opt_def)

lemma init_unsorted: "(init src cmd)\<lparr>sorted_flag := False\<rparr> = init src cmd"
  by (simp add: init_def)

text \<open>
  C4 (amended). For every parsed answer set and every combination of the other options,
  whenever formatting with \<open>sorted\<close> succeeds, formatting without it succeeds too and
  gives the same result read without order: the set of the elements of the sorted tuple
  (of each sorted tuple of the dictionary, with \<open>by_predicate\<close>) is the set produced
  without \<open>sorted\<close>.
\<close>

theorem sorted_output_same_elements:
  assumes "format env (a\<lparr>sorted_flag := True\<rparr>) answer_set = Inr r"
  shows "format env (a\<lparr>sorted_flag := False\<rparr>) answer_set = Inr (unordered r)"
proof (cases "ignore_args a")
  case True
  show ?thesis
  proof (cases "group_atoms a")
    case grp: True
    with True assms have "r = Grouped (\<lambda>p. if p \<in> set (map fst answer_set)
        then Some (FrozenSet {}) else None)"
      by (simp add: format_def Let_def)
    then have "unordered r = r" by (auto simp: fun_eq_iff)
    with True grp assms show ?thesis by (simp add: format_def Let_def)
  next
    case grp: False
    from True grp assms obtain ys where ys:
      "py_sorted (item_lt env)
         (if as_pyasp_flag a
          then map (\<lambda>p. Legacy (make_atom env p (VTuple []))) (map fst answer_set)
          else map (\<lambda>p. Val (VStr p)) (map fst answer_set)) = Inr ys"
      and r: "r = Flat (SortedTuple ys)"
      by (auto simp: format_def builder_def Let_def split: sum.splits if_splits)
    from py_sorted_set [OF ys] r True grp show ?thesis
      by (auto simp: format_def builder_def Let_def)
  qed
next
  case False
  from False assms obtain xs where xs: "py_sorted pair_lt (atom_pairs a answer_set) = Inr xs"
    by (auto simp: format_def builder_def split: sum.splits)
  then have set_xs: "set xs = set (atom_pairs a answer_set)" by (rule py_sorted_set)
  show ?thesis
  proof (cases "group_atoms a")
    case grp: True
    with False assms xs have "group_sorted env a xs = Inr r"
      by (simp add: format_def builder_def)
    then have "unordered r = group_set env a (set xs)" by (rule group_sorted_unordered)
    with False grp set_xs show ?thesis by (simp add: format_def builder_def)
  next
    case grp: False
    show ?thesis
    proof (cases "as_pyasp_flag a")
      case True
      with False grp assms xs obtain ys where
        ys: "py_sorted (item_lt env) (map (\<lambda>(pred, args). Legacy (make_atom env pred args)) xs) = Inr ys"
        and r: "r = Flat (SortedTuple ys)"
        by (auto simp: format_def builder_def split: sum.splits)
      from py_sorted_set [OF ys] r set_xs False grp True show ?thesis
        by (simp add: format_def builder_def)
    next
      case pyasp: False
      with False grp assms xs have "r = Flat (SortedTuple (map (\<lambda>pa. Val (pair_val pa)) xs))"
        by (simp add: format_def builder_def)
      with set_xs False grp pyasp show ?thesis
        by (simp add: format_def builder_def)
    qed
  qed
qed

theorem sorted_output_same_elements_witness:
  "format example_env ((init [] [])\<lparr>sorted_flag := True\<rparr>)
     [(''p'', ArgTuple [VInt 2]), (''p'', ArgTuple [VInt 1])] =
     Inr (Flat (SortedTuple [Val (VTuple [VStr ''p'', VTuple [VInt 1]]),
                             Val (VTuple [VStr ''p'', VTuple [VInt 2]])])) \<and>
   format example_env ((init [] [])\<lparr>sorted_flag := False\<rparr>)
     [(''p'', ArgTuple [VInt 2]), (''p'', ArgTuple [VInt 1])] =
     Inr (unordered (Flat (SortedTuple [Val (VTuple [VStr ''p'', VTuple [VInt 1]]),
                                        Val (VTuple [VStr ''p'', VTuple [VInt 2]])])))"
proof -
  have srt: "format example_env ((init [] [])\<lparr>sorted_flag := True\<rparr>)
     [(''p'', ArgTuple [VInt 2]), (''p'', ArgTuple [VInt 1])] =
     Inr (Flat (SortedTuple [Val (VTuple [VStr ''p'', VTuple [VInt 1]]),
                             Val (VTuple [VStr ''p'', VTuple [VInt 2]])]))"
    using format_ints_sorted [of example_env "[]" "[]"] by (simp only: sorted_opt_as_update)
  show ?thesis
    by (rule conjI [OF srt sorted_output_same_elements [OF srt]])
qed

text \<open>
  On the parsed answer set \<open>p(1) p(a)\<close> formatting with \<open>sorted\<close> raises \<open>TypeError\<close>
  and produces no output, while formatting without it gives the set of the two atoms.
\<close>

theorem sorted_output_missing:
  "format example_env ((init [] [])\<lparr>sorted_flag := True\<rparr>)
     [(''p'', ArgTuple [VInt 1]), (''p'', ArgTuple [VStr ''a''])] = Inl TypeError \<and>
   format example_env ((init [] [])\<lparr>sorted_flag := False\<rparr>)
     [(''p'', ArgTuple [VInt 1]), (''p'', ArgTuple [VStr ''a''])] =
     Inr (Flat (FrozenSet {Val (VTuple [VStr ''p'', VTuple [VInt 1]]),
                           Val (VTuple [VStr ''p'', VTuple [VStr ''a'']])}))"
  using format_mixed_sorted [of example_env "[]" "[]"]
    format_mixed_unsorted [of example_env "[]" "[]"]
  by (simp only: sorted_opt_as_update init_unsorted)

section \<open>Discarding the arguments\<close>











end
